theory Spec2Isabelle
  imports Complex_Main "HOL-Library.AList" "HOL-Library.Char_ord" "HOL-Library.List_Lexorder"
begin

section \<open>Data model\<close>

text \<open>
  The correlation analyzer works on JavaScript numbers. They are modelled as the reals
  (\<open>Math.sqrt\<close> is \<^const>\<open>sqrt\<close>), timestamps and sample counts as integers, tickers as
  strings ordered lexicographically by character code. Console output is not modelled.
  An exception thrown by the candlestick collaborator is the \<open>Inl\<close> branch of a sum.
\<close>

datatype error = TransportFailure string

record OHLCData =
  ohlc_open :: real
  high :: real
  low :: real
  close :: real

record CandlestickData =
  end_period_ts :: int
  open_interest :: real
  price :: "OHLCData option"
  volume :: real
  yes_ask :: "OHLCData option"
  yes_bid :: "OHLCData option"

record CandlesticksResponse =
  candlesticks :: "CandlestickData list option"
  ticker :: string

record TimeSeriesData =
  marketTicker :: string
  eventTicker :: string
  eventTitle :: "string option"
  title :: "string option"
  timestamps :: "int list"
  closePrices :: "real list"
  volumes :: "real list"

record CorrelationResult =
  market1 :: string
  market2 :: string
  event1Title :: "string option"
  event2Title :: "string option"
  correlation :: real
  pValue :: "real option"
  dataPoints :: int

text \<open>The element type of the \<open>markets\<close> parameter of \<open>analyzeMultipleMarkets\<close>.\<close>

record MarketInput =
  inEventTicker :: string
  inMarketTicker :: string
  inTitle :: string
  inEventTitle :: "string option"

text \<open>The object returned by \<open>alignTimeSeries\<close>.\<close>

record Aligned =
  prices1 :: "real list"
  prices2 :: "real list"
  alignedTimestamps :: "int list"

text \<open>
  \<open>KalshiCorrelator.getMarketCandlesticks\<close>, the collaborator: event ticker, market ticker,
  start, end, period interval. It may throw; a missing response is \<open>None\<close>.
\<close>

type_synonym fetcher =
  "string \<Rightarrow> string \<Rightarrow> int \<Rightarrow> int \<Rightarrow> string \<Rightarrow> error + CandlesticksResponse option"

section \<open>Array helpers\<close>

text \<open>
  \<open>Array.prototype.slice(start, end)\<close>: a negative index counts from the end, both
  indices are clamped to the array.
\<close>

definition js_slice :: "'a list \<Rightarrow> int \<Rightarrow> int \<Rightarrow> 'a list" where
  "js_slice xs start fin =
     (let len = int (length xs);
          k = (if start < 0 then max (len + start) 0 else min start len);
          final = (if fin < 0 then max (len + fin) 0 else min fin len)
      in take (nat (final - k)) (drop (nat k) xs))"

section \<open>Candlesticks to time series\<close>

text \<open>The function mapped over the candles by \<open>transformCandlestickData\<close>.\<close>

definition transformCandle :: "CandlestickData \<Rightarrow> CandlestickData" where
  "transformCandle candle =
     (if (case price candle of Some p \<Rightarrow> close p \<noteq> 0 | None \<Rightarrow> False) then candle
      else case (yes_ask candle, yes_bid candle) of
          (Some a, Some b) \<Rightarrow>
            candle\<lparr>price := Some \<lparr>ohlc_open = (ohlc_open a + ohlc_open b) / 2,
                                   high = (high a + high b) / 2,
                                   low = (low a + low b) / 2,
                                   close = (close a + close b) / 2\<rparr>\<rparr>
        | (Some a, None) \<Rightarrow> candle\<lparr>price := Some a\<rparr>
        | (None, Some b) \<Rightarrow> candle\<lparr>price := Some b\<rparr>
        | (None, None) \<Rightarrow>
            candle\<lparr>price := Some \<lparr>ohlc_open = 0, high = 0, low = 0, close = 0\<rparr>\<rparr>)"

definition transformCandlestickData :: "CandlestickData list \<Rightarrow> CandlestickData list" where
  "transformCandlestickData cs = map transformCandle cs"

text \<open>
  One round of the loop over the candles in \<open>fetchMarketTimeSeries\<close>; the state is the
  three arrays \<open>timestamps\<close>, \<open>closePrices\<close>, \<open>volumes\<close>.
\<close>

definition pushCandle ::
  "CandlestickData \<Rightarrow> int list \<times> real list \<times> real list \<Rightarrow> int list \<times> real list \<times> real list" where
  "pushCandle candle acc =
     (case acc of (ts, cps, vs) \<Rightarrow>
        (case price candle of
           Some p \<Rightarrow>
             if close p > 0
             then (ts @ [end_period_ts candle], cps @ [close p / 100], vs @ [volume candle])
             else acc
         | None \<Rightarrow> acc))"

text \<open>
  \<open>fetchMarketTimeSeries\<close>. The whole body is inside \<open>try\<close>; the \<open>catch\<close> logs and returns
  \<open>null\<close>, so a throw of the collaborator becomes \<open>Inr None\<close>.
\<close>

definition fetchMarketTimeSeries ::
  "fetcher \<Rightarrow> string \<Rightarrow> string \<Rightarrow> string \<Rightarrow> int \<Rightarrow> int \<Rightarrow> string \<Rightarrow> string option
     \<Rightarrow> error + TimeSeriesData option" where
  "fetchMarketTimeSeries kalshi eventTicker' marketTicker' title' startTs endTs periodInterval
       eventTitle' =
     (case kalshi eventTicker' marketTicker' startTs endTs periodInterval of
        Inl err \<Rightarrow> Inr None
      | Inr None \<Rightarrow> Inr None
      | Inr (Some response) \<Rightarrow>
          (case candlesticks response of
             None \<Rightarrow> Inr None
           | Some raw \<Rightarrow>
               if length raw = 0 then Inr None
               else
                 (case fold pushCandle (transformCandlestickData raw) ([], [], []) of
                    (ts, cps, vs) \<Rightarrow>
                      if length cps = 0 then Inr None
                      else Inr (Some \<lparr>marketTicker = marketTicker',
                                       eventTicker = eventTicker',
                                       eventTitle = eventTitle',
                                       title = Some title',
                                       timestamps = ts,
                                       closePrices = cps,
                                       volumes = vs\<rparr>))))"

section \<open>Alignment\<close>

text \<open>
  The lookup \<open>series2Map\<close> of \<open>alignTimeSeries\<close>: it is filled from the FIRST series, a
  later entry for the same timestamp replacing an earlier one. Only \<open>has\<close> and \<open>get\<close>
  are used on it, so a partial function models it.
\<close>

definition series2Map :: "TimeSeriesData \<Rightarrow> (int \<rightharpoonup> real)" where
  "series2Map series1 =
     fold (\<lambda>i m. m(timestamps series1 ! i \<mapsto> closePrices series1 ! i))
       [0..<length (timestamps series1)] Map.empty"

definition alignStep :: "(int \<rightharpoonup> real) \<Rightarrow> TimeSeriesData \<Rightarrow> nat \<Rightarrow> Aligned \<Rightarrow> Aligned" where
  "alignStep m series2 i st =
     (let ts = timestamps series2 ! i
      in case m ts of
           Some p \<Rightarrow> \<lparr>prices1 = prices1 st @ [p],
                      prices2 = prices2 st @ [closePrices series2 ! i],
                      alignedTimestamps = alignedTimestamps st @ [ts]\<rparr>
         | None \<Rightarrow> st)"

text \<open>
  \<open>alignTimeSeries\<close>. The price arrays are read at the indices of the timestamp arrays;
  \<open>fetchMarketTimeSeries\<close> builds the two with equal lengths (\<open>wf_series\<close> below), and the
  statements about prices are made for such series.
\<close>

definition alignTimeSeries :: "TimeSeriesData \<Rightarrow> TimeSeriesData \<Rightarrow> Aligned option" where
  "alignTimeSeries series1 series2 =
     (let st = fold (alignStep (series2Map series1) series2)
                 [0..<length (timestamps series2)]
                 \<lparr>prices1 = [], prices2 = [], alignedTimestamps = []\<rparr>
      in if length (alignedTimestamps st) < 3 then None else Some st)"

definition wf_series :: "TimeSeriesData \<Rightarrow> bool" where
  "wf_series s = (length (closePrices s) = length (timestamps s))"

section \<open>Correlation calculator\<close>

definition calculateCorrelation :: "real list \<Rightarrow> real list \<Rightarrow> real" where
  "calculateCorrelation x y =
     (if length x \<noteq> length y \<or> length x = 0 then 0
      else
        let n = real (length x);
            sumX = foldl (\<lambda>a b. a + b) 0 x;
            sumY = foldl (\<lambda>a b. a + b) 0 y;
            sumXY = foldl (\<lambda>sum (xi, i). sum + xi * y ! i) 0 (zip x [0..<length x]);
            sumX2 = foldl (\<lambda>sum xi. sum + xi * xi) 0 x;
            sumY2 = foldl (\<lambda>sum yi. sum + yi * yi) 0 y;
            numerator = n * sumXY - sumX * sumY;
            denominator = sqrt ((n * sumX2 - sumX * sumX) * (n * sumY2 - sumY * sumY))
        in if denominator = 0 then 0 else numerator / denominator)"

definition calculateReturns :: "real list \<Rightarrow> real list" where
  "calculateReturns prices =
     fold (\<lambda>i returns.
             if prices ! (i - 1) \<noteq> 0
             then returns @ [(prices ! i - prices ! (i - 1)) / prices ! (i - 1)]
             else returns @ [0])
       [1..<length prices] []"

definition calculateRollingCorrelation :: "real list \<Rightarrow> real list \<Rightarrow> int \<Rightarrow> real list" where
  "calculateRollingCorrelation x y window =
     fold (\<lambda>i correlations.
             correlations @
               [calculateCorrelation (js_slice x (i - window) i) (js_slice y (i - window) i)])
       [window..int (length x)] []"

section \<open>Pairwise engine\<close>

text \<open>The fetch loop of \<open>analyzeMultipleMarkets\<close>; \<open>acc\<close> is \<open>timeSeriesData\<close>.\<close>

fun fetchLoop ::
  "fetcher \<Rightarrow> MarketInput list \<Rightarrow> int \<Rightarrow> int \<Rightarrow> string \<Rightarrow> TimeSeriesData list
     \<Rightarrow> error + TimeSeriesData list" where
  "fetchLoop kalshi [] startTs endTs periodInterval acc = Inr acc"
| "fetchLoop kalshi (market # rest) startTs endTs periodInterval acc =
     (case fetchMarketTimeSeries kalshi (inEventTicker market) (inMarketTicker market)
             (inTitle market) startTs endTs periodInterval (inEventTitle market) of
        Inl err \<Rightarrow> Inl err
      | Inr None \<Rightarrow> fetchLoop kalshi rest startTs endTs periodInterval acc
      | Inr (Some series) \<Rightarrow>
          fetchLoop kalshi rest startTs endTs periodInterval (acc @ [series]))"

record LoopState =
  correlations :: "CorrelationResult list"
  skippedSameEvent :: nat

text \<open>The body of the inner loop, at indices \<open>i\<close> and \<open>j\<close>.\<close>

definition pairBody :: "TimeSeriesData list \<Rightarrow> nat \<Rightarrow> nat \<Rightarrow> LoopState \<Rightarrow> LoopState" where
  "pairBody timeSeriesData i j st =
     (let series1 = timeSeriesData ! i; series2 = timeSeriesData ! j
      in if eventTicker series1 = eventTicker series2
         then st\<lparr>skippedSameEvent := skippedSameEvent st + 1\<rparr>
         else
           (case alignTimeSeries series1 series2 of
              None \<Rightarrow> st
            | Some aligned \<Rightarrow>
                if length (alignedTimestamps aligned) < 10 then st
                else
                  let returns1 = calculateReturns (prices1 aligned);
                      returns2 = calculateReturns (prices2 aligned)
                  in if length returns1 > 0 \<and> length returns2 > 0
                     then st\<lparr>correlations := correlations st @
                            [\<lparr>market1 = marketTicker series1,
                              market2 = marketTicker series2,
                              event1Title = eventTitle series1,
                              event2Title = eventTitle series2,
                              correlation = calculateCorrelation returns1 returns2,
                              pValue = None,
                              dataPoints = int (length (alignedTimestamps aligned))\<rparr>]\<rparr>
                     else st))"

definition pairLoop :: "TimeSeriesData list \<Rightarrow> LoopState" where
  "pairLoop timeSeriesData =
     fold (\<lambda>i st. fold (\<lambda>j st'. pairBody timeSeriesData i j st')
                     [i + 1..<length timeSeriesData] st)
       [0..<length timeSeriesData]
       \<lparr>correlations = [], skippedSameEvent = 0\<rparr>"

definition analyzeMultipleMarkets ::
  "fetcher \<Rightarrow> MarketInput list \<Rightarrow> int \<Rightarrow> int \<Rightarrow> string \<Rightarrow> error + CorrelationResult list" where
  "analyzeMultipleMarkets kalshi markets startTs endTs periodInterval =
     (case fetchLoop kalshi markets startTs endTs periodInterval [] of
        Inl err \<Rightarrow> Inl err
      | Inr timeSeriesData \<Rightarrow> Inr (correlations (pairLoop timeSeriesData)))"

section \<open>Deduplication\<close>

text \<open>
  \<open>correlationMap\<close> is a JavaScript \<open>Map\<close>, whose \<open>values()\<close> come in the order in which
  the keys were first set: an association list, \<open>map_of\<close> for \<open>get\<close> and
  \<^const>\<open>AList.update\<close> for \<open>set\<close> (in place for a key that is present, at the end otherwise).
\<close>

definition pairKey :: "CorrelationResult \<Rightarrow> string" where
  "pairKey corr =
     (if market1 corr < market2 corr
      then market1 corr @ ''|'' @ market2 corr
      else market2 corr @ ''|'' @ market1 corr)"

definition dedupStep ::
  "CorrelationResult \<Rightarrow> (string \<times> CorrelationResult) list \<Rightarrow> (string \<times> CorrelationResult) list" where
  "dedupStep corr correlationMap =
     (let key = pairKey corr
      in case map_of correlationMap key of
           None \<Rightarrow> AList.update key corr correlationMap
         | Some existing \<Rightarrow>
             if dataPoints corr > dataPoints existing \<or>
                (dataPoints corr = dataPoints existing \<and>
                 \<bar>correlation corr\<bar> > \<bar>correlation existing\<bar>)
             then AList.update key corr correlationMap
             else correlationMap)"

definition deduplicateCorrelations :: "CorrelationResult list \<Rightarrow> CorrelationResult list" where
  "deduplicateCorrelations cs = map snd (fold dedupStep cs [])"

section \<open>Windowed run of \<open>main\<close>\<close>

definition MAX_MARKETS :: nat where
  "MAX_MARKETS = 100"

definition WINDOW_SIZE :: nat where
  "WINDOW_SIZE = 50"

text \<open>
  The state of the window analysis of \<open>main\<close>. \<open>engineCalls\<close> is not a variable of the
  source: it records the argument of each call of \<open>analyzeMultipleMarkets\<close>, in order.
\<close>

record ('m, 'r) RunState =
  allCorrelations :: "'r list"
  windowCount :: nat
  engineCalls :: "'m list list"

definition analyzeWindow ::
  "('m list \<Rightarrow> error + 'r list) \<Rightarrow> 'm list \<Rightarrow> ('m, 'r) RunState \<Rightarrow> error + ('m, 'r) RunState" where
  "analyzeWindow analyze marketsWindow st =
     (case analyze marketsWindow of
        Inl err \<Rightarrow> Inl err
      | Inr cs \<Rightarrow> Inr (st\<lparr>allCorrelations := allCorrelations st @ cs,
                          engineCalls := engineCalls st @ [marketsWindow]\<rparr>))"

text \<open>
  \<open>main\<close> from the check that at least two markets were collected to the end of the second
  window. \<open>None\<close> is the early \<open>return\<close>; an exception of the engine leaves through the
  \<open>catch\<close> of \<open>main\<close>.
\<close>

definition windowedAnalysis ::
  "('m list \<Rightarrow> error + 'r list) \<Rightarrow> 'm list \<Rightarrow> error + ('m, 'r) RunState option" where
  "windowedAnalysis analyze allMarkets =
     (if length allMarkets < 2 then Inr None
      else
        let st0 = \<lparr>allCorrelations = [], windowCount = 0, engineCalls = []\<rparr>;
            first =
              (if length allMarkets \<ge> WINDOW_SIZE
               then analyzeWindow analyze (js_slice allMarkets 0 (int WINDOW_SIZE))
                      (st0\<lparr>windowCount := windowCount st0 + 1\<rparr>)
               else analyzeWindow analyze allMarkets (st0\<lparr>windowCount := windowCount st0 + 1\<rparr>))
        in case first of
             Inl err \<Rightarrow> Inl err
           | Inr st1 \<Rightarrow>
               if length allMarkets > WINDOW_SIZE
               then
                 let st2 = st1\<lparr>windowCount := windowCount st1 + 1\<rparr>;
                     endIdx = min (WINDOW_SIZE * 2) (length allMarkets);
                     marketsWindow = js_slice allMarkets (int WINDOW_SIZE) (int endIdx)
                 in if length marketsWindow \<ge> 2
                    then (case analyzeWindow analyze marketsWindow st2 of
                            Inl err \<Rightarrow> Inl err
                          | Inr st3 \<Rightarrow> Inr (Some st3))
                    else Inr (Some st2)
               else Inr (Some st1))"

section \<open>The formulas of the specification\<close>

text \<open>
  The period return at index \<open>i\<close> and the Pearson formula, written as the specification
  states them, for comparison with the code.
\<close>

definition returnAt :: "real list \<Rightarrow> nat \<Rightarrow> real" where
  "returnAt p i = (if p ! (i - 1) \<noteq> 0 then (p ! i - p ! (i - 1)) / p ! (i - 1) else 0)"




section \<open>Notions of the specification for alignment and the pair loop\<close>

text \<open>The indices of the second series whose timestamp the lookup \<open>m\<close> has, in order.\<close>

definition hits :: "(int \<rightharpoonup> real) \<Rightarrow> int list \<Rightarrow> nat \<Rightarrow> nat list" where
  "hits m ts n = filter (\<lambda>i. m (ts ! i) \<noteq> None) [0..<n]"

text \<open>
  The timestamps of the second series that are also timestamps of the first, in the order
  of the second series.
\<close>

definition common :: "TimeSeriesData \<Rightarrow> TimeSeriesData \<Rightarrow> int list" where
  "common series1 series2 = filter (\<lambda>t. t \<in> set (timestamps series1)) (timestamps series2)"

text \<open>
  The record that the specification asks for a pair: the Pearson correlation of the two
  returns sequences, and the aligned sample count.
\<close>

definition pairRecord :: "TimeSeriesData \<Rightarrow> TimeSeriesData \<Rightarrow> Aligned \<Rightarrow> CorrelationResult" where
  "pairRecord series1 series2 aligned =
     \<lparr>market1 = marketTicker series1,
      market2 = marketTicker series2,
      event1Title = eventTitle series1,
      event2Title = eventTitle series2,
      correlation = calculateCorrelation (calculateReturns (prices1 aligned))
                      (calculateReturns (prices2 aligned)),
      pValue = None,
      dataPoints = int (length (alignedTimestamps aligned))\<rparr>"

text \<open>
  The conditions under which the specification has a pair emit its record: different
  groups, an alignment with at least 10 samples, two non-empty returns sequences.
\<close>

definition emitted :: "TimeSeriesData \<Rightarrow> TimeSeriesData \<Rightarrow> CorrelationResult option" where
  "emitted series1 series2 =
     (if eventTicker series1 = eventTicker series2 then None
      else case alignTimeSeries series1 series2 of
             None \<Rightarrow> None
           | Some aligned \<Rightarrow>
               if 10 \<le> length (alignedTimestamps aligned) \<and>
                  calculateReturns (prices1 aligned) \<noteq> [] \<and>
                  calculateReturns (prices2 aligned) \<noteq> []
               then Some (pairRecord series1 series2 aligned)
               else None)"

text \<open>The index pairs \<open>(i, j)\<close> with \<open>i < j < n\<close>, in the order of the two loops.\<close>

definition indexPairs :: "nat \<Rightarrow> (nat \<times> nat) list" where
  "indexPairs n = concat (map (\<lambda>i. map (\<lambda>j. (i, j)) [i + 1..<n]) [0..<n])"

text \<open>The pair of series at the two indices shares its event ticker.\<close>

definition sameEvent :: "TimeSeriesData list \<Rightarrow> nat \<times> nat \<Rightarrow> bool" where
  "sameEvent tsd p = (eventTicker (tsd ! fst p) = eventTicker (tsd ! snd p))"

text \<open>
  Three series for the concrete instances: \<open>E1\<close> and \<open>E2\<close> of group \<open>G1\<close>, \<open>E3\<close> of group
  \<open>G2\<close>, ten common timestamps each, and the two alignments with \<open>E3\<close>.
\<close>

definition exampleE1 :: TimeSeriesData where
  "exampleE1 = \<lparr>marketTicker = ''E1'', eventTicker = ''G1'', eventTitle = None,
     title = Some ''t'',
     timestamps = [1, 2, 3, 4, 5, 6, 7, 8, 9, 10],
     closePrices = [0.5, 0.25, 0.5, 0.25, 0.5, 0.25, 0.5, 0.25, 0.5, 0.25],
     volumes = [1, 1, 1, 1, 1, 1, 1, 1, 1, 1]\<rparr>"

definition exampleE2 :: TimeSeriesData where
  "exampleE2 = \<lparr>marketTicker = ''E2'', eventTicker = ''G1'', eventTitle = None,
     title = Some ''t'',
     timestamps = [1, 2, 3, 4, 5, 6, 7, 8, 9, 10],
     closePrices = [0.5, 0.5, 0.25, 0.25, 0.5, 0.5, 0.25, 0.25, 0.5, 0.5],
     volumes = [1, 1, 1, 1, 1, 1, 1, 1, 1, 1]\<rparr>"

definition exampleE3 :: TimeSeriesData where
  "exampleE3 = \<lparr>marketTicker = ''E3'', eventTicker = ''G2'', eventTitle = None,
     title = Some ''t'',
     timestamps = [1, 2, 3, 4, 5, 6, 7, 8, 9, 10],
     closePrices = [0.25, 0.5, 0.25, 0.5, 0.25, 0.5, 0.25, 0.5, 0.25, 0.5],
     volumes = [1, 1, 1, 1, 1, 1, 1, 1, 1, 1]\<rparr>"

definition exampleAligned13 :: Aligned where
  "exampleAligned13 =
     \<lparr>prices1 = [0.5, 0.25, 0.5, 0.25, 0.5, 0.25, 0.5, 0.25, 0.5, 0.25],
      prices2 = [0.25, 0.5, 0.25, 0.5, 0.25, 0.5, 0.25, 0.5, 0.25, 0.5],
      alignedTimestamps = [1, 2, 3, 4, 5, 6, 7, 8, 9, 10]\<rparr>"

definition exampleAligned23 :: Aligned where
  "exampleAligned23 =
     \<lparr>prices1 = [0.5, 0.5, 0.25, 0.25, 0.5, 0.5, 0.25, 0.25, 0.5, 0.5],
      prices2 = [0.25, 0.5, 0.25, 0.5, 0.25, 0.5, 0.25, 0.5, 0.25, 0.5],
      alignedTimestamps = [1, 2, 3, 4, 5, 6, 7, 8, 9, 10]\<rparr>"

section \<open>Notions of the specification for deduplication\<close>

text \<open>
  The comparison of \<open>deduplicateCorrelations\<close>: more data points, or as many and a larger
  absolute correlation.
\<close>

definition outranks :: "CorrelationResult \<Rightarrow> CorrelationResult \<Rightarrow> bool" where
  "outranks c e =
     (dataPoints c > dataPoints e \<or>
      (dataPoints c = dataPoints e \<and> \<bar>correlation c\<bar> > \<bar>correlation e\<bar>))"

text \<open>
  The record at position \<open>i\<close> outranks every earlier record of its pair, and no record of
  its pair outranks it: it is the first of the best records of its pair.
\<close>

definition keptAt :: "CorrelationResult list \<Rightarrow> nat \<Rightarrow> bool" where
  "keptAt cs i =
     (i < length cs \<and>
      (\<forall>c\<in>set (take i cs). pairKey c = pairKey (cs ! i) \<longrightarrow> outranks (cs ! i) c) \<and>
      (\<forall>c\<in>set cs. pairKey c = pairKey (cs ! i) \<longrightarrow> \<not> outranks c (cs ! i)))"

text \<open>
  The invariant of the loop of \<open>deduplicateCorrelations\<close>, for the records \<open>cs\<close> read so
  far and the map \<open>m\<close>.
\<close>

definition dedupInv :: "CorrelationResult list \<Rightarrow> (string \<times> CorrelationResult) list \<Rightarrow> bool" where
  "dedupInv cs m =
     (distinct (map fst m) \<and> fst ` set m = pairKey ` set cs \<and>
      (\<forall>k r. map_of m k = Some r \<longrightarrow> (\<exists>i. keptAt cs i \<and> cs ! i = r \<and> pairKey r = k)))"

text \<open>
  Records of the pair \<open>A\<close>, \<open>B\<close> for the concrete instances: 12 data points; 20 data
  points with the markets in the other order; 20 data points and a larger absolute
  correlation; the same rank as the latter.
\<close>

definition exampleR12 :: CorrelationResult where
  "exampleR12 = \<lparr>market1 = ''A'', market2 = ''B'', event1Title = None, event2Title = None,
     correlation = 0.9, pValue = None, dataPoints = 12\<rparr>"

definition exampleR20 :: CorrelationResult where
  "exampleR20 = \<lparr>market1 = ''B'', market2 = ''A'', event1Title = None, event2Title = None,
     correlation = 0.1, pValue = None, dataPoints = 20\<rparr>"

definition exampleR20strong :: CorrelationResult where
  "exampleR20strong = \<lparr>market1 = ''A'', market2 = ''B'', event1Title = None, event2Title = None,
     correlation = - 0.5, pValue = None, dataPoints = 20\<rparr>"

definition exampleR20tie :: CorrelationResult where
  "exampleR20tie = \<lparr>market1 = ''B'', market2 = ''A'', event1Title = None, event2Title = None,
     correlation = 0.5, pValue = None, dataPoints = 20\<rparr>"

section \<open>Notions for the fetch loop\<close>

text \<open>
  The series that \<open>fetchMarketTimeSeries\<close> returns for a market of the list, \<open>None\<close> for
  \<open>null\<close>.
\<close>

definition fetched :: "fetcher \<Rightarrow> int \<Rightarrow> int \<Rightarrow> string \<Rightarrow> MarketInput \<Rightarrow> TimeSeriesData option" where
  "fetched kalshi startTs endTs periodInterval market =
     (case fetchMarketTimeSeries kalshi (inEventTicker market) (inMarketTicker market)
             (inTitle market) startTs endTs periodInterval (inEventTitle market) of
        Inl err \<Rightarrow> None
      | Inr series \<Rightarrow> series)"

text \<open>
  A collaborator for the concrete instances: ten candles with the given close prices in
  cents for the markets \<open>E1\<close> and \<open>E3\<close>, a transport failure for every other market; and
  three markets, the last of which fails.
\<close>

definition exampleCandles :: "real list \<Rightarrow> CandlestickData list" where
  "exampleCandles cents =
     map (\<lambda>(t, c). \<lparr>end_period_ts = t, open_interest = 0,
                     price = Some \<lparr>ohlc_open = c, high = c, low = c, close = c\<rparr>,
                     volume = 1, yes_ask = None, yes_bid = None\<rparr>)
       (zip [1, 2, 3, 4, 5, 6, 7, 8, 9, 10] cents)"

definition exampleKalshi :: fetcher where
  "exampleKalshi event market startTs endTs periodInterval =
     (if market = ''E1''
      then Inr (Some \<lparr>candlesticks = Some (exampleCandles [50, 25, 50, 25, 50, 25, 50, 25, 50, 25]),
                      ticker = market\<rparr>)
      else if market = ''E3''
      then Inr (Some \<lparr>candlesticks = Some (exampleCandles [25, 50, 25, 50, 25, 50, 25, 50, 25, 50]),
                      ticker = market\<rparr>)
      else Inl (TransportFailure ''timeout''))"

definition exampleM1 :: MarketInput where
  "exampleM1 = \<lparr>inEventTicker = ''G1'', inMarketTicker = ''E1'', inTitle = ''t'', inEventTitle = None\<rparr>"

definition exampleM3 :: MarketInput where
  "exampleM3 = \<lparr>inEventTicker = ''G2'', inMarketTicker = ''E3'', inTitle = ''t'', inEventTitle = None\<rparr>"

definition exampleMBad :: MarketInput where
  "exampleMBad = \<lparr>inEventTicker = ''G3'', inMarketTicker = ''E9'', inTitle = ''t'', inEventTitle = None\<rparr>"

section \<open>Properties of the correlation calculator\<close>

lemma fold_push: "fold (\<lambda>i acc. acc @ [f i]) is acc = acc @ map f is"
  by (induction "is" arbitrary: acc) simp_all

lemma calculateReturns_map: "calculateReturns p = map (returnAt p) [1..<length p]"
proof -
  have "(\<lambda>i returns. if p ! (i - 1) \<noteq> 0
           then returns @ [(p ! i - p ! (i - 1)) / p ! (i - 1)] else returns @ [0])
        = (\<lambda>i returns. returns @ [returnAt p i])"
    by (intro ext) (simp add: returnAt_def)
  then show ?thesis
    unfolding calculateReturns_def by (simp add: fold_push)
qed

lemma length_calculateReturns: "length (calculateReturns p) = length p - 1"
  by (simp add: calculateReturns_map)

text \<open>
  C6: \<open>calculateReturns\<close> yields \<open>max (n - 1) 0\<close> elements; the element for index \<open>i\<close>
  in \<open>1..n-1\<close> is \<open>(p[i] - p[i-1]) / p[i-1]\<close> when \<open>p[i-1]\<close> is not zero and \<open>0\<close>
  otherwise; \<open>returns([100, 110, 99]) = [0.10, -0.1]\<close> and \<open>returns([0, 5]) = [0]\<close>.
\<close>

theorem calculateReturns_spec:
  "length (calculateReturns p) = max (length p - 1) 0 \<and>
   (\<forall>i. 1 \<le> i \<and> i < length p \<longrightarrow>
      calculateReturns p ! (i - 1) =
        (if p ! (i - 1) \<noteq> 0 then (p ! i - p ! (i - 1)) / p ! (i - 1) else 0)) \<and>
   calculateReturns [100, 110, 99] = [1 / 10, - (1 / 10)] \<and>
   calculateReturns [0, 5] = [0]"
proof (intro conjI allI impI)
  show "length (calculateReturns p) = max (length p - 1) 0"
    by (simp add: length_calculateReturns)
next
  fix i assume i: "1 \<le> i \<and> i < length p"
  then have "i - 1 < length p - 1" and "1 + (i - 1) = i" by arith+
  then have "map (returnAt p) [1..<length p] ! (i - 1) = returnAt p i"
    using nth_map_upt [of "i - 1" "length p" 1 "returnAt p"] by simp
  then show "calculateReturns p ! (i - 1) =
        (if p ! (i - 1) \<noteq> 0 then (p ! i - p ! (i - 1)) / p ! (i - 1) else 0)"
    by (simp add: calculateReturns_map returnAt_def)
next
  show "calculateReturns [100, 110, 99] = [1 / 10, - (1 / 10)]"
    by (simp add: calculateReturns_map returnAt_def upt_rec [of 1] upt_rec [of 2])
next
  show "calculateReturns [0, 5] = [0]"
    by (simp add: calculateReturns_map returnAt_def upt_rec [of 1])
qed

theorem calculateReturns_spec_witness:
  "(1::nat) \<le> 2 \<and> 2 < length [100, 110, 99 :: real] \<and>
   calculateReturns [100, 110, 99] ! (2 - 1) = - (1 / 10)"
  using calculateReturns_spec [of "[100, 110, 99]"] by simp







section \<open>Properties of alignment and of the pair loop\<close>

lemma series2Map_fold_Some:
  "fold (\<lambda>i m. m(ts ! i \<mapsto> cps ! i)) [0..<n] Map.empty t = Some p \<Longrightarrow>
     \<exists>i<n. ts ! i = t \<and> cps ! i = p \<and> (\<forall>j. i < j \<and> j < n \<longrightarrow> ts ! j \<noteq> t)"
proof (induction n arbitrary: p)
  case 0
  then show ?case by simp
next
  case (Suc n)
  show ?case
  proof (cases "ts ! n = t")
    case True
    with Suc.prems have "cps ! n = p" by (simp add: fun_upd_same fun_upd_other del: fun_upd_apply)
    with True show ?thesis by (intro exI [of _ n]) auto
  next
    case False
    with Suc.prems have "fold (\<lambda>i m. m(ts ! i \<mapsto> cps ! i)) [0..<n] Map.empty t = Some p"
      by (simp add: fun_upd_same fun_upd_other del: fun_upd_apply)
    from Suc.IH [OF this] obtain i where i: "i < n" "ts ! i = t" "cps ! i = p"
      "\<forall>j. i < j \<and> j < n \<longrightarrow> ts ! j \<noteq> t" by blast
    have "\<forall>j. i < j \<and> j < Suc n \<longrightarrow> ts ! j \<noteq> t"
      using i(4) False by (auto simp: less_Suc_eq)
    with i show ?thesis by (intro exI [of _ i]) auto
  qed
qed

lemma series2Map_fold_dom:
  "dom (fold (\<lambda>i m. m(ts ! i \<mapsto> cps ! i)) [0..<n] Map.empty) = (\<lambda>i. ts ! i) ` {..<n}"
  by (induction n) (simp_all add: lessThan_Suc del: fun_upd_apply)

lemma dom_series2Map: "dom (series2Map s) = set (timestamps s)"
proof -
  have "(\<lambda>i. timestamps s ! i) ` {..<length (timestamps s)} = set (timestamps s)"
    by (auto simp: in_set_conv_nth)
  then show ?thesis by (simp add: series2Map_def series2Map_fold_dom)
qed

lemma series2Map_Some:
  "series2Map s t = Some p \<Longrightarrow>
     \<exists>i<length (timestamps s). timestamps s ! i = t \<and> closePrices s ! i = p \<and>
        (\<forall>j. i < j \<and> j < length (timestamps s) \<longrightarrow> timestamps s ! j \<noteq> t)"
  unfolding series2Map_def by (rule series2Map_fold_Some)


lemma alignLoop:
  "fold (alignStep m s2) [0..<n] \<lparr>prices1 = [], prices2 = [], alignedTimestamps = []\<rparr> =
     \<lparr>prices1 = map (\<lambda>i. the (m (timestamps s2 ! i))) (hits m (timestamps s2) n),
      prices2 = map (\<lambda>i. closePrices s2 ! i) (hits m (timestamps s2) n),
      alignedTimestamps = map (\<lambda>i. timestamps s2 ! i) (hits m (timestamps s2) n)\<rparr>"
  by (induction n) (auto simp: hits_def alignStep_def Let_def split: option.splits)

lemma map_nth_filter_upt:
  "map (\<lambda>i. xs ! i) (filter (\<lambda>i. P (xs ! i)) [0..<length xs]) = filter P xs"
proof -
  have "filter P (map (\<lambda>i. xs ! i) [0..<length xs]) = filter P xs"
    by (simp add: map_nth)
  then show ?thesis by (simp add: filter_map comp_def)
qed

lemma hits_common:
  "map (\<lambda>i. timestamps s2 ! i) (hits (series2Map s1) (timestamps s2) (length (timestamps s2)))
     = common s1 s2"
proof -
  have "(series2Map s1 t \<noteq> None) = (t \<in> set (timestamps s1))" for t
    using dom_series2Map [of s1] by (metis domIff)
  then have "(\<lambda>i. series2Map s1 (timestamps s2 ! i) \<noteq> None)
      = (\<lambda>i. timestamps s2 ! i \<in> set (timestamps s1))"
    by simp
  then show ?thesis
    unfolding hits_def common_def
    using map_nth_filter_upt [of "timestamps s2" "\<lambda>t. t \<in> set (timestamps s1)"] by simp
qed

lemma alignTimeSeries_cases:
  "alignTimeSeries s1 s2 =
     (let h = hits (series2Map s1) (timestamps s2) (length (timestamps s2))
      in if length (common s1 s2) < 3 then None
         else Some \<lparr>prices1 = map (\<lambda>i. the (series2Map s1 (timestamps s2 ! i))) h,
                    prices2 = map (\<lambda>i. closePrices s2 ! i) h,
                    alignedTimestamps = common s1 s2\<rparr>)"
proof -
  have "length (hits (series2Map s1) (timestamps s2) (length (timestamps s2)))
      = length (common s1 s2)"
    using hits_common [of s2 s1] by (metis length_map)
  then show ?thesis
    by (simp add: alignTimeSeries_def alignLoop Let_def hits_common)
qed

lemma aligned_eq:
  assumes "alignTimeSeries s1 s2 = Some a"
  shows "prices1 a = map (\<lambda>i. the (series2Map s1 (timestamps s2 ! i)))
           (hits (series2Map s1) (timestamps s2) (length (timestamps s2)))"
    and "prices2 a = map (\<lambda>i. closePrices s2 ! i)
           (hits (series2Map s1) (timestamps s2) (length (timestamps s2)))"
    and "alignedTimestamps a = common s1 s2"
    and "3 \<le> length (common s1 s2)"
  using assms by (auto simp: alignTimeSeries_cases Let_def split: if_splits)

lemma aligned_lengths:
  assumes "alignTimeSeries s1 s2 = Some a"
  shows "length (prices1 a) = length (alignedTimestamps a)"
    and "length (prices2 a) = length (alignedTimestamps a)"
    and "alignedTimestamps a = common s1 s2"
    and "3 \<le> length (common s1 s2)"
proof -
  let ?h = "hits (series2Map s1) (timestamps s2) (length (timestamps s2))"
  have len: "length ?h = length (common s1 s2)"
    using hits_common [of s2 s1] by (metis length_map)
  show "3 \<le> length (common s1 s2)" by (rule aligned_eq(4) [OF assms])
  have "prices1 a = map (\<lambda>i. the (series2Map s1 (timestamps s2 ! i))) ?h"
    and "prices2 a = map (\<lambda>i. closePrices s2 ! i) ?h"
    and ts: "alignedTimestamps a = common s1 s2" by (rule aligned_eq [OF assms])+
  then show "length (prices1 a) = length (alignedTimestamps a)"
    and "length (prices2 a) = length (alignedTimestamps a)"
    by (simp_all add: len)
  from ts show "alignedTimestamps a = common s1 s2" .
qed

lemma zip_conv_nth:
  "length ys = length xs \<Longrightarrow> zip xs ys = map (\<lambda>i. (xs ! i, ys ! i)) [0..<length xs]"
  by (rule nth_equalityI) simp_all

lemma aligned_prices2:
  assumes "alignTimeSeries s1 s2 = Some a" and "wf_series s2"
  shows "zip (alignedTimestamps a) (prices2 a) =
     filter (\<lambda>(t, p). t \<in> set (timestamps s1)) (zip (timestamps s2) (closePrices s2))"
proof -
  let ?ts = "timestamps s2" and ?cps = "closePrices s2"
  let ?h = "hits (series2Map s1) ?ts (length ?ts)"
  let ?g = "\<lambda>i. (?ts ! i, ?cps ! i)"
  have dom: "(series2Map s1 t \<noteq> None) = (t \<in> set (timestamps s1))" for t
    using dom_series2Map [of s1] by (metis domIff)
  have p2: "prices2 a = map (\<lambda>i. ?cps ! i) ?h"
    and "alignedTimestamps a = common s1 s2"
    by (rule aligned_eq [OF assms(1)])+
  then have ts: "alignedTimestamps a = map (\<lambda>i. ?ts ! i) ?h"
    by (simp add: hits_common)
  have z: "zip ?ts ?cps = map ?g [0..<length ?ts]"
    using assms(2) by (simp add: wf_series_def zip_conv_nth)
  have "zip (alignedTimestamps a) (prices2 a) = map ?g ?h"
    unfolding ts p2 by (simp add: zip_map_map zip_same_conv_map)
  also have "\<dots> = filter (\<lambda>(t, p). t \<in> set (timestamps s1)) (map ?g [0..<length ?ts])"
    using dom by (simp add: filter_map comp_def hits_def)
  finally show ?thesis by (simp add: z)
qed

lemma aligned_prices1:
  assumes "alignTimeSeries s1 s2 = Some a" and "k < length (common s1 s2)"
  shows "\<exists>i<length (timestamps s1). timestamps s1 ! i = common s1 s2 ! k \<and>
           prices1 a ! k = closePrices s1 ! i \<and>
           (\<forall>j. i < j \<and> j < length (timestamps s1) \<longrightarrow> timestamps s1 ! j \<noteq> common s1 s2 ! k)"
proof -
  let ?ts = "timestamps s2"
  let ?h = "hits (series2Map s1) ?ts (length ?ts)"
  have len: "length ?h = length (common s1 s2)"
    using hits_common [of s2 s1] by (metis length_map)
  with assms(2) have k: "k < length ?h" by simp
  then have c: "common s1 s2 ! k = ?ts ! (?h ! k)"
    using hits_common [of s2 s1] by (metis nth_map)
  from k have "?h ! k \<in> set ?h" by simp
  then have "series2Map s1 (?ts ! (?h ! k)) \<noteq> None"
    by (simp add: hits_def)
  then obtain p where p: "series2Map s1 (common s1 s2 ! k) = Some p"
    using c by auto
  have "prices1 a = map (\<lambda>i. the (series2Map s1 (?ts ! i))) ?h"
    by (rule aligned_eq(1) [OF assms(1)])
  with k c p have "prices1 a ! k = p" by simp
  with series2Map_Some [OF p] show ?thesis by blast
qed

text \<open>
  C3, as stated: on series with timestamps \<open>[1, 2, 3]\<close> and \<open>[2, 3, 4]\<close> the specification expects
  the aligned timestamps \<open>[2, 3]\<close>. The overlap has two elements, fewer than the three
  that \<open>alignTimeSeries\<close> requires, and the result is \<open>null\<close>.
\<close>

theorem alignTimeSeries_example_counterexample:
  "alignTimeSeries
     \<lparr>marketTicker = ''A'', eventTicker = ''EA'', eventTitle = None, title = None,
      timestamps = [1, 2, 3], closePrices = [0.5, 0.6, 0.7], volumes = [1, 1, 1]\<rparr>
     \<lparr>marketTicker = ''B'', eventTicker = ''EB'', eventTitle = None, title = None,
      timestamps = [2, 3, 4], closePrices = [0.2, 0.3, 0.4], volumes = [1, 1, 1]\<rparr>
   = None"
  by (simp add: alignTimeSeries_def series2Map_def alignStep_def upt_rec Let_def)

text \<open>
  C3, amended: \<open>alignTimeSeries\<close> returns \<open>null\<close> when fewer than 3 timestamps of the second
  series occur in the first; otherwise its timestamps are exactly those, in the order of
  the second series, and for series whose price and timestamp arrays have equal lengths
  each position pairs them with the price of the second series at that position and with
  the price of the first series at its last entry for that timestamp (its only entry when
  the timestamps of the first series are distinct).
\<close>

theorem alignTimeSeries_spec:
  "(length (common s1 s2) < 3 \<longrightarrow> alignTimeSeries s1 s2 = None) \<and>
   (3 \<le> length (common s1 s2) \<longrightarrow>
      (\<exists>a. alignTimeSeries s1 s2 = Some a \<and>
           alignedTimestamps a = common s1 s2 \<and>
           length (prices1 a) = length (common s1 s2) \<and>
           length (prices2 a) = length (common s1 s2) \<and>
           (wf_series s2 \<longrightarrow>
              zip (alignedTimestamps a) (prices2 a) =
                filter (\<lambda>(t, p). t \<in> set (timestamps s1))
                  (zip (timestamps s2) (closePrices s2))) \<and>
           (wf_series s1 \<longrightarrow>
              (\<forall>k<length (common s1 s2).
                 \<exists>i<length (timestamps s1).
                    timestamps s1 ! i = common s1 s2 ! k \<and>
                    prices1 a ! k = closePrices s1 ! i \<and>
                    (\<forall>j. i < j \<and> j < length (timestamps s1) \<longrightarrow>
                       timestamps s1 ! j \<noteq> common s1 s2 ! k)))))"
proof (intro conjI impI)
  assume "length (common s1 s2) < 3"
  then show "alignTimeSeries s1 s2 = None"
    by (simp add: alignTimeSeries_cases Let_def)
next
  assume "3 \<le> length (common s1 s2)"
  then obtain a where a: "alignTimeSeries s1 s2 = Some a"
    by (simp add: alignTimeSeries_cases Let_def)
  show "\<exists>a. alignTimeSeries s1 s2 = Some a \<and>
           alignedTimestamps a = common s1 s2 \<and>
           length (prices1 a) = length (common s1 s2) \<and>
           length (prices2 a) = length (common s1 s2) \<and>
           (wf_series s2 \<longrightarrow>
              zip (alignedTimestamps a) (prices2 a) =
                filter (\<lambda>(t, p). t \<in> set (timestamps s1))
                  (zip (timestamps s2) (closePrices s2))) \<and>
           (wf_series s1 \<longrightarrow>
              (\<forall>k<length (common s1 s2).
                 \<exists>i<length (timestamps s1).
                    timestamps s1 ! i = common s1 s2 ! k \<and>
                    prices1 a ! k = closePrices s1 ! i \<and>
                    (\<forall>j. i < j \<and> j < length (timestamps s1) \<longrightarrow>
                       timestamps s1 ! j \<noteq> common s1 s2 ! k)))"
  proof (intro exI [of _ a] conjI impI allI)
    show "alignTimeSeries s1 s2 = Some a" by (rule a)
    show "alignedTimestamps a = common s1 s2" by (rule aligned_lengths(3) [OF a])
    show "length (prices1 a) = length (common s1 s2)"
      using aligned_lengths(1, 3) [OF a] by simp
    show "length (prices2 a) = length (common s1 s2)"
      using aligned_lengths(2, 3) [OF a] by simp
  next
    assume "wf_series s2"
    then show "zip (alignedTimestamps a) (prices2 a) =
                filter (\<lambda>(t, p). t \<in> set (timestamps s1))
                  (zip (timestamps s2) (closePrices s2))"
      by (rule aligned_prices2 [OF a])
  next
    fix k assume "k < length (common s1 s2)"
    then show "\<exists>i<length (timestamps s1).
                    timestamps s1 ! i = common s1 s2 ! k \<and>
                    prices1 a ! k = closePrices s1 ! i \<and>
                    (\<forall>j. i < j \<and> j < length (timestamps s1) \<longrightarrow>
                       timestamps s1 ! j \<noteq> common s1 s2 ! k)"
      by (rule aligned_prices1 [OF a])
  qed
qed

text \<open>
  C10: for a pair of series of different events whose alignment has at least 10 samples,
  both returns sequences have the aligned count minus one elements, at least 9, so the
  guard on empty returns lets the pair through and the body appends its record.
\<close>

theorem returns_guard_never_fires:
  assumes "eventTicker (tsd ! i) \<noteq> eventTicker (tsd ! j)"
    and "alignTimeSeries (tsd ! i) (tsd ! j) = Some a"
    and "10 \<le> length (alignedTimestamps a)"
  shows "length (calculateReturns (prices1 a)) = length (alignedTimestamps a) - 1 \<and>
         length (calculateReturns (prices2 a)) = length (alignedTimestamps a) - 1 \<and>
         9 \<le> length (alignedTimestamps a) - 1 \<and>
         0 < length (calculateReturns (prices1 a)) \<and>
         0 < length (calculateReturns (prices2 a)) \<and>
         correlations (pairBody tsd i j st) =
           correlations st @ [pairRecord (tsd ! i) (tsd ! j) a]"
proof -
  have l1: "length (calculateReturns (prices1 a)) = length (alignedTimestamps a) - 1"
    using aligned_lengths(1) [OF assms(2)] by (simp add: length_calculateReturns)
  have l2: "length (calculateReturns (prices2 a)) = length (alignedTimestamps a) - 1"
    using aligned_lengths(2) [OF assms(2)] by (simp add: length_calculateReturns)
  from assms(3) have nine: "9 \<le> length (alignedTimestamps a) - 1" by simp
  from l1 l2 nine have pos: "0 < length (calculateReturns (prices1 a))"
    "0 < length (calculateReturns (prices2 a))" by simp_all
  have "correlations (pairBody tsd i j st) =
           correlations st @ [pairRecord (tsd ! i) (tsd ! j) a]"
    using assms pos by (simp add: pairBody_def Let_def pairRecord_def)
  with l1 l2 nine pos show ?thesis by simp
qed

lemma pairBody_correlations:
  "correlations (pairBody tsd i j st) =
     correlations st @ (case emitted (tsd ! i) (tsd ! j) of None \<Rightarrow> [] | Some r \<Rightarrow> [r])"
  by (simp add: pairBody_def emitted_def pairRecord_def Let_def split: option.splits)

lemma pairBody_skipped:
  "skippedSameEvent (pairBody tsd i j st) =
     skippedSameEvent st + (if sameEvent tsd (i, j) then 1 else 0)"
  by (simp add: pairBody_def sameEvent_def Let_def split: option.splits)

lemma inner_correlations:
  "correlations (fold (\<lambda>j st'. pairBody tsd i j st') js st) =
     correlations st @ List.map_filter (\<lambda>(i, j). emitted (tsd ! i) (tsd ! j)) (map (\<lambda>j. (i, j)) js)"
  by (induction js arbitrary: st)
     (simp_all add: pairBody_correlations List.map_filter_simps split: option.splits)

lemma inner_skipped:
  "skippedSameEvent (fold (\<lambda>j st'. pairBody tsd i j st') js st) =
     skippedSameEvent st + length (filter (sameEvent tsd) (map (\<lambda>j. (i, j)) js))"
  by (induction js arbitrary: st) (simp_all add: pairBody_skipped)

lemma map_filter_append:
  "List.map_filter f (xs @ ys) = List.map_filter f xs @ List.map_filter f ys"
  by (simp add: List.map_filter_def)

lemma outer_correlations:
  "correlations (fold (\<lambda>i st. fold (\<lambda>j st'. pairBody tsd i j st') [i + 1..<n] st) is st) =
     correlations st @ List.map_filter (\<lambda>(i, j). emitted (tsd ! i) (tsd ! j))
        (concat (map (\<lambda>i. map (\<lambda>j. (i, j)) [i + 1..<n]) is))"
  by (induction "is" arbitrary: st)
     (simp_all add: inner_correlations map_filter_append List.map_filter_simps)

lemma outer_skipped:
  "skippedSameEvent (fold (\<lambda>i st. fold (\<lambda>j st'. pairBody tsd i j st') [i + 1..<n] st) is st) =
     skippedSameEvent st + length (filter (sameEvent tsd)
        (concat (map (\<lambda>i. map (\<lambda>j. (i, j)) [i + 1..<n]) is)))"
  by (induction "is" arbitrary: st) (simp_all add: inner_skipped)

lemma set_indexPairs: "set (indexPairs n) = {(i, j). i < j \<and> j < n}"
proof (intro set_eqI iffI)
  fix p assume "p \<in> set (indexPairs n)"
  then show "p \<in> {(i, j). i < j \<and> j < n}"
    by (auto simp: indexPairs_def)
next
  fix p :: "nat \<times> nat" assume "p \<in> {(i, j). i < j \<and> j < n}"
  then obtain i j where p: "p = (i, j)" "i < j" "j < n" by (cases p) simp
  then have "i \<in> set [0..<n]" and "(i, j) \<in> set (map (\<lambda>j. (i, j)) [i + 1..<n])"
    by simp_all
  then have "\<exists>x\<in>set [0..<n]. (i, j) \<in> set (map (\<lambda>j. (x, j)) [x + 1..<n])"
    by (rule bexI [rotated])
  then show "p \<in> set (indexPairs n)"
    by (simp add: indexPairs_def p(1))
qed

lemma distinct_pairs_of:
  "distinct is \<Longrightarrow> distinct (concat (map (\<lambda>i. map (\<lambda>j. (i, j)) [i + 1..<n]) is))"
proof (induction "is")
  case Nil
  then show ?case by simp
next
  case (Cons i "is")
  have "distinct (map (\<lambda>j. (i, j)) [i + 1..<n])"
    by (simp add: distinct_map inj_on_def)
  moreover have "fst ` set (map (\<lambda>j. (i, j)) [i + 1..<n]) \<subseteq> {i}"
    by auto
  moreover have "fst ` set (concat (map (\<lambda>i. map (\<lambda>j. (i, j)) [i + 1..<n]) is)) \<subseteq> set is"
    by auto
  moreover from Cons.prems have "i \<notin> set is" by simp
  ultimately have "set (map (\<lambda>j. (i, j)) [i + 1..<n]) \<inter>
      set (concat (map (\<lambda>i. map (\<lambda>j. (i, j)) [i + 1..<n]) is)) = {}"
    by blast
  with Cons \<open>distinct (map (\<lambda>j. (i, j)) [i + 1..<n])\<close> show ?case by simp
qed

lemma distinct_indexPairs: "distinct (indexPairs n)"
  unfolding indexPairs_def by (rule distinct_pairs_of) simp

text \<open>
  C2: on the fetched series, the pair loop of \<open>analyzeMultipleMarkets\<close> goes through each
  index pair \<open>i < j\<close> once, in order; it emits one record for a pair exactly when the two
  series have different event tickers, the alignment succeeds with at least 10 samples and
  both returns sequences are non-empty; the record holds the Pearson correlation of the
  returns and the aligned sample count; the same-event pairs are counted.
\<close>

theorem analyzeMultipleMarkets_pairs:
  "correlations (pairLoop tsd) =
     List.map_filter (\<lambda>(i, j). emitted (tsd ! i) (tsd ! j)) (indexPairs (length tsd)) \<and>
   skippedSameEvent (pairLoop tsd) =
     length (filter (sameEvent tsd) (indexPairs (length tsd))) \<and>
   distinct (indexPairs (length tsd)) \<and>
   set (indexPairs (length tsd)) = {(i, j). i < j \<and> j < length tsd} \<and>
   (\<forall>s1 s2. (emitted s1 s2 \<noteq> None) =
      (eventTicker s1 \<noteq> eventTicker s2 \<and>
       (\<exists>a. alignTimeSeries s1 s2 = Some a \<and> 10 \<le> length (alignedTimestamps a) \<and>
            calculateReturns (prices1 a) \<noteq> [] \<and> calculateReturns (prices2 a) \<noteq> []))) \<and>
   (\<forall>s1 s2 r. emitted s1 s2 = Some r \<longrightarrow>
      (\<exists>a. alignTimeSeries s1 s2 = Some a \<and>
           correlation r = calculateCorrelation (calculateReturns (prices1 a))
                             (calculateReturns (prices2 a)) \<and>
           dataPoints r = int (length (alignedTimestamps a)) \<and>
           market1 r = marketTicker s1 \<and> market2 r = marketTicker s2))"
proof (intro conjI allI impI)
  show "correlations (pairLoop tsd) =
     List.map_filter (\<lambda>(i, j). emitted (tsd ! i) (tsd ! j)) (indexPairs (length tsd))"
    using outer_correlations [of tsd "length tsd" "[0..<length tsd]"
        "\<lparr>correlations = [], skippedSameEvent = 0\<rparr>"]
    by (simp add: pairLoop_def indexPairs_def)
  show "skippedSameEvent (pairLoop tsd) =
     length (filter (sameEvent tsd) (indexPairs (length tsd)))"
    using outer_skipped [of tsd "length tsd" "[0..<length tsd]"
        "\<lparr>correlations = [], skippedSameEvent = 0\<rparr>"]
    by (simp add: pairLoop_def indexPairs_def)
  show "distinct (indexPairs (length tsd))" by (rule distinct_indexPairs)
  show "set (indexPairs (length tsd)) = {(i, j). i < j \<and> j < length tsd}"
    by (rule set_indexPairs)
next
  fix s1 s2
  show "(emitted s1 s2 \<noteq> None) =
      (eventTicker s1 \<noteq> eventTicker s2 \<and>
       (\<exists>a. alignTimeSeries s1 s2 = Some a \<and> 10 \<le> length (alignedTimestamps a) \<and>
            calculateReturns (prices1 a) \<noteq> [] \<and> calculateReturns (prices2 a) \<noteq> []))"
    by (auto simp: emitted_def split: option.splits)
next
  fix s1 s2 r assume "emitted s1 s2 = Some r"
  then show "\<exists>a. alignTimeSeries s1 s2 = Some a \<and>
           correlation r = calculateCorrelation (calculateReturns (prices1 a))
                             (calculateReturns (prices2 a)) \<and>
           dataPoints r = int (length (alignedTimestamps a)) \<and>
           market1 r = marketTicker s1 \<and> market2 r = marketTicker s2"
    by (auto simp: emitted_def pairRecord_def split: option.splits if_splits)
qed

lemma upt_10: "[0..<10] = [0, 1, 2, 3, 4, 5, 6, 7, 8, 9]"
  by code_simp

lemma align_E1_E3: "alignTimeSeries exampleE1 exampleE3 = Some exampleAligned13"
  by (simp add: alignTimeSeries_def series2Map_def alignStep_def Let_def upt_10
      exampleE1_def exampleE3_def exampleAligned13_def)

lemma align_E2_E3: "alignTimeSeries exampleE2 exampleE3 = Some exampleAligned23"
  by (simp add: alignTimeSeries_def series2Map_def alignStep_def Let_def upt_10
      exampleE2_def exampleE3_def exampleAligned23_def)

lemma indexPairs_3: "indexPairs 3 = [(0, 1), (0, 2), (1, 2)]"
  by code_simp

text \<open>C10 at the series \<open>E1\<close> and \<open>E3\<close>.\<close>

theorem returns_guard_never_fires_witness:
  "eventTicker ([exampleE1, exampleE3] ! 0) \<noteq> eventTicker ([exampleE1, exampleE3] ! 1) \<and>
   alignTimeSeries ([exampleE1, exampleE3] ! 0) ([exampleE1, exampleE3] ! 1) = Some exampleAligned13 \<and>
   10 \<le> length (alignedTimestamps exampleAligned13) \<and>
   length (calculateReturns (prices1 exampleAligned13)) = 9 \<and>
   length (calculateReturns (prices2 exampleAligned13)) = 9 \<and>
   correlations (pairBody [exampleE1, exampleE3] 0 1 \<lparr>correlations = [], skippedSameEvent = 0\<rparr>)
     = [pairRecord exampleE1 exampleE3 exampleAligned13]"
proof -
  have a: "eventTicker ([exampleE1, exampleE3] ! 0) \<noteq> eventTicker ([exampleE1, exampleE3] ! 1)"
    by (simp add: exampleE1_def exampleE3_def)
  have b: "alignTimeSeries ([exampleE1, exampleE3] ! 0) ([exampleE1, exampleE3] ! 1)
             = Some exampleAligned13"
    by (simp add: align_E1_E3)
  have c: "10 \<le> length (alignedTimestamps exampleAligned13)"
    by (simp add: exampleAligned13_def)
  have d: "length (alignedTimestamps exampleAligned13) = 10"
    by (simp add: exampleAligned13_def)
  show ?thesis
    using returns_guard_never_fires [OF a b c, of "\<lparr>correlations = [], skippedSameEvent = 0\<rparr>"]
      a b c d by simp
qed

lemma returns_ne:
  "calculateReturns (prices1 exampleAligned13) \<noteq> []"
  "calculateReturns (prices2 exampleAligned13) \<noteq> []"
  "calculateReturns (prices1 exampleAligned23) \<noteq> []"
  "calculateReturns (prices2 exampleAligned23) \<noteq> []"
  by (simp_all add: length_calculateReturns exampleAligned13_def exampleAligned23_def
      flip: length_greater_0_conv)

text \<open>
  C2 at \<open>[E1, E2, E3]\<close>: the pair \<open>(E1, E2)\<close> is skipped and counted, the pairs
  \<open>(E1, E3)\<close> and \<open>(E2, E3)\<close> emit their records.
\<close>

theorem analyzeMultipleMarkets_pairs_witness:
  "skippedSameEvent (pairLoop [exampleE1, exampleE2, exampleE3]) = 1 \<and>
   correlations (pairLoop [exampleE1, exampleE2, exampleE3]) =
     [pairRecord exampleE1 exampleE3 exampleAligned13,
      pairRecord exampleE2 exampleE3 exampleAligned23] \<and>
   emitted exampleE1 exampleE2 = None \<and>
   eventTicker exampleE1 \<noteq> eventTicker exampleE3 \<and>
   emitted exampleE1 exampleE3 \<noteq> None \<and>
   dataPoints (pairRecord exampleE1 exampleE3 exampleAligned13) = 10"
proof -
  have e12: "emitted exampleE1 exampleE2 = None"
    by (simp add: emitted_def exampleE1_def exampleE2_def)
  have e13: "emitted exampleE1 exampleE3 = Some (pairRecord exampleE1 exampleE3 exampleAligned13)"
    using returns_ne by (simp add: emitted_def align_E1_E3)
      (simp add: exampleE1_def exampleE3_def exampleAligned13_def)
  have e23: "emitted exampleE2 exampleE3 = Some (pairRecord exampleE2 exampleE3 exampleAligned23)"
    using returns_ne by (simp add: emitted_def align_E2_E3)
      (simp add: exampleE2_def exampleE3_def exampleAligned23_def)
  have s: "sameEvent [exampleE1, exampleE2, exampleE3] (0, Suc 0)"
    "\<not> sameEvent [exampleE1, exampleE2, exampleE3] (0, 2)"
    "\<not> sameEvent [exampleE1, exampleE2, exampleE3] (Suc 0, 2)"
    by (simp_all add: sameEvent_def exampleE1_def exampleE2_def exampleE3_def)
  have t: "eventTicker exampleE1 \<noteq> eventTicker exampleE3"
    by (simp add: exampleE1_def exampleE3_def)
  have d: "dataPoints (pairRecord exampleE1 exampleE3 exampleAligned13) = 10"
    by (simp add: pairRecord_def exampleAligned13_def)
  have len: "length [exampleE1, exampleE2, exampleE3] = 3" by simp
  note spec = analyzeMultipleMarkets_pairs [of "[exampleE1, exampleE2, exampleE3]",
      unfolded len indexPairs_3]
  from spec have "correlations (pairLoop [exampleE1, exampleE2, exampleE3]) =
     [pairRecord exampleE1 exampleE3 exampleAligned13,
      pairRecord exampleE2 exampleE3 exampleAligned23]"
    by (simp add: List.map_filter_simps e12 e13 e23)
  moreover from spec have "skippedSameEvent (pairLoop [exampleE1, exampleE2, exampleE3]) = 1"
    by (simp add: s)
  ultimately show ?thesis
    by (simp add: e12 e13 t d)
qed

text \<open>
  C3, amended, at series with timestamps \<open>[1, 2, 3, 4]\<close> and \<open>[2, 3, 4, 5]\<close>: the aligned
  timestamps are \<open>[2, 3, 4]\<close>.
\<close>

theorem alignTimeSeries_spec_witness:
  "3 \<le> length (common
      \<lparr>marketTicker = ''A'', eventTicker = ''EA'', eventTitle = None, title = None,
       timestamps = [1, 2, 3, 4], closePrices = [0.5, 0.6, 0.7, 0.8], volumes = [1, 1, 1, 1]\<rparr>
      \<lparr>marketTicker = ''B'', eventTicker = ''EB'', eventTitle = None, title = None,
       timestamps = [2, 3, 4, 5], closePrices = [0.2, 0.3, 0.4, 0.1], volumes = [1, 1, 1, 1]\<rparr>) \<and>
   wf_series
      \<lparr>marketTicker = ''A'', eventTicker = ''EA'', eventTitle = None, title = None,
       timestamps = [1, 2, 3, 4], closePrices = [0.5, 0.6, 0.7, 0.8], volumes = [1, 1, 1, 1]\<rparr> \<and>
   wf_series
      \<lparr>marketTicker = ''B'', eventTicker = ''EB'', eventTitle = None, title = None,
       timestamps = [2, 3, 4, 5], closePrices = [0.2, 0.3, 0.4, 0.1], volumes = [1, 1, 1, 1]\<rparr> \<and>
   (\<exists>a. alignTimeSeries
      \<lparr>marketTicker = ''A'', eventTicker = ''EA'', eventTitle = None, title = None,
       timestamps = [1, 2, 3, 4], closePrices = [0.5, 0.6, 0.7, 0.8], volumes = [1, 1, 1, 1]\<rparr>
      \<lparr>marketTicker = ''B'', eventTicker = ''EB'', eventTitle = None, title = None,
       timestamps = [2, 3, 4, 5], closePrices = [0.2, 0.3, 0.4, 0.1], volumes = [1, 1, 1, 1]\<rparr>
        = Some a \<and>
      alignedTimestamps a = [2, 3, 4] \<and>
      zip (alignedTimestamps a) (prices2 a) = [(2, 0.2), (3, 0.3), (4, 0.4)] \<and>
      prices1 a = [0.6, 0.7, 0.8])"
  using alignTimeSeries_spec
     [of "\<lparr>marketTicker = ''A'', eventTicker = ''EA'', eventTitle = None, title = None,
       timestamps = [1, 2, 3, 4], closePrices = [0.5, 0.6, 0.7, 0.8], volumes = [1, 1, 1, 1]\<rparr>"
         "\<lparr>marketTicker = ''B'', eventTicker = ''EB'', eventTitle = None, title = None,
       timestamps = [2, 3, 4, 5], closePrices = [0.2, 0.3, 0.4, 0.1], volumes = [1, 1, 1, 1]\<rparr>"]
  by (simp add: common_def wf_series_def alignTimeSeries_def series2Map_def alignStep_def
      Let_def upt_rec)

section \<open>Properties of deduplication\<close>

lemma outranks_irrefl: "\<not> outranks c c"
  by (simp add: outranks_def)

lemma outranks_asym: "outranks c e \<Longrightarrow> \<not> outranks e c"
  by (auto simp: outranks_def)

lemma outranks_trans': "outranks c e \<Longrightarrow> \<not> outranks x e \<Longrightarrow> outranks c x"
  by (auto simp: outranks_def)

lemma dedupStep_outranks:
  "dedupStep c m =
     (case map_of m (pairKey c) of
        None \<Rightarrow> AList.update (pairKey c) c m
      | Some e \<Rightarrow> if outranks c e then AList.update (pairKey c) c m else m)"
  by (auto simp: dedupStep_def outranks_def Let_def split: option.splits)

lemma keptAt_snoc_old:
  assumes "keptAt cs i" and "pairKey c = pairKey (cs ! i) \<longrightarrow> \<not> outranks c (cs ! i)"
  shows "keptAt (cs @ [c]) i"
  using assms by (auto simp: keptAt_def nth_append)

lemma keptAt_snoc_new:
  assumes "\<forall>x\<in>set cs. pairKey x = pairKey c \<longrightarrow> outranks c x"
  shows "keptAt (cs @ [c]) (length cs)"
  using assms by (auto simp: keptAt_def outranks_irrefl dest: outranks_asym)

lemma dedupInv_step:
  assumes inv: "dedupInv cs m"
  shows "dedupInv (cs @ [c]) (dedupStep c m)"
proof -
  from inv have dist: "distinct (map fst m)" and keys: "fst ` set m = pairKey ` set cs"
    and win: "\<And>k r. map_of m k = Some r \<Longrightarrow> \<exists>i. keptAt cs i \<and> cs ! i = r \<and> pairKey r = k"
    by (auto simp: dedupInv_def)
  have old: "\<exists>i. keptAt (cs @ [c]) i \<and> (cs @ [c]) ! i = r \<and> pairKey r = k"
    if "map_of m k = Some r" and "pairKey c = k \<longrightarrow> \<not> outranks c r" for k r
  proof -
    from win [OF that(1)] obtain i where i: "keptAt cs i" "cs ! i = r" "pairKey r = k" by blast
    from i that(2) have "keptAt (cs @ [c]) i" by (intro keptAt_snoc_old) auto
    moreover from i(1) have "i < length cs" by (simp add: keptAt_def)
    ultimately show ?thesis using i by (auto simp: nth_append)
  qed
  have new: "\<exists>i. keptAt (cs @ [c]) i \<and> (cs @ [c]) ! i = c \<and> pairKey c = pairKey c"
    if "\<forall>x\<in>set cs. pairKey x = pairKey c \<longrightarrow> outranks c x"
    using keptAt_snoc_new [OF that] by (intro exI [of _ "length cs"]) simp
  show ?thesis
  proof (cases "map_of m (pairKey c)")
    case None
    then have step: "dedupStep c m = AList.update (pairKey c) c m"
      by (simp add: dedupStep_outranks)
    from None have "pairKey c \<notin> fst ` set m"
      by (simp add: map_of_eq_None_iff)
    with keys have fresh: "\<forall>x\<in>set cs. pairKey x = pairKey c \<longrightarrow> outranks c x"
      by (metis imageI)
    have "\<exists>i. keptAt (cs @ [c]) i \<and> (cs @ [c]) ! i = r \<and> pairKey r = k"
      if "map_of (AList.update (pairKey c) c m) k = Some r" for k r
    proof (cases "k = pairKey c")
      case True
      with that have "r = c" by (simp add: update_conv')
      with new [OF fresh] True show ?thesis by simp
    next
      case False
      with that have "map_of m k = Some r" by (simp add: update_conv')
      with False show ?thesis by (intro old) auto
    qed
    then show ?thesis
      unfolding dedupInv_def step
      using dist keys by (simp add: distinct_update dom_update)
  next
    case (Some e)
    from win [OF Some] obtain ie where ie: "keptAt cs ie" "cs ! ie = e" "pairKey e = pairKey c"
      by blast
    then have inkeys: "pairKey c \<in> fst ` set m"
      using keys by (metis Some domI dom_map_of_conv_image_fst)
    show ?thesis
    proof (cases "outranks c e")
      case True
      with Some have step: "dedupStep c m = AList.update (pairKey c) c m"
        by (simp add: dedupStep_outranks)
      have best: "\<forall>x\<in>set cs. pairKey x = pairKey c \<longrightarrow> outranks c x"
      proof (intro ballI impI)
        fix x assume "x \<in> set cs" "pairKey x = pairKey c"
        with ie have "\<not> outranks x e" by (auto simp: keptAt_def)
        with True show "outranks c x" by (rule outranks_trans')
      qed
      have "\<exists>i. keptAt (cs @ [c]) i \<and> (cs @ [c]) ! i = r \<and> pairKey r = k"
        if "map_of (AList.update (pairKey c) c m) k = Some r" for k r
      proof (cases "k = pairKey c")
        case True
        with that have "r = c" by (simp add: update_conv')
        with new [OF best] True show ?thesis by simp
      next
        case False
        with that have "map_of m k = Some r" by (simp add: update_conv')
        with False show ?thesis by (intro old) auto
      qed
      then show ?thesis
        unfolding dedupInv_def step
        using dist keys inkeys by (auto simp add: distinct_update dom_update)
    next
      case False
      with Some have step: "dedupStep c m = m"
        by (simp add: dedupStep_outranks)
      have "\<exists>i. keptAt (cs @ [c]) i \<and> (cs @ [c]) ! i = r \<and> pairKey r = k"
        if "map_of m k = Some r" for k r
        using that Some False by (intro old) auto
      then show ?thesis
        unfolding dedupInv_def step
        using dist keys inkeys by auto
    qed
  qed
qed

lemma dedupInv_fold: "dedupInv cs (fold dedupStep cs [])"
proof (induction cs rule: rev_induct)
  case Nil
  show ?case by (simp add: dedupInv_def)
next
  case (snoc c cs)
  then show ?case using dedupInv_step [of cs "fold dedupStep cs []" c] by simp
qed

lemma dedup_entries:
  assumes "r \<in> set (deduplicateCorrelations cs)"
  shows "\<exists>i. keptAt cs i \<and> cs ! i = r"
proof -
  let ?m = "fold dedupStep cs []"
  from assms obtain k where "(k, r) \<in> set ?m"
    by (auto simp: deduplicateCorrelations_def)
  moreover have "distinct (map fst ?m)"
    using dedupInv_fold [of cs] by (simp add: dedupInv_def)
  ultimately have "map_of ?m k = Some r" by simp
  then show ?thesis
    using dedupInv_fold [of cs] unfolding dedupInv_def by blast
qed









text \<open>
  C9: the record kept for a pair is at a position where it outranks every earlier record
  of the pair and is outranked by no record of the pair, so among records that tie on data
  points and absolute correlation the earliest is kept; of two such records \<open>a\<close>, \<open>b\<close> in
  this order, \<open>a\<close> is kept.
\<close>

theorem deduplicateCorrelations_first_wins:
  "(\<forall>r\<in>set (deduplicateCorrelations cs).
      \<exists>i<length cs. cs ! i = r \<and>
        (\<forall>c\<in>set (take i cs). pairKey c = pairKey r \<longrightarrow> outranks r c) \<and>
        (\<forall>c\<in>set cs. pairKey c = pairKey r \<longrightarrow> \<not> outranks c r)) \<and>
   (pairKey a = pairKey b \<and> dataPoints a = dataPoints b \<and>
      \<bar>correlation a\<bar> = \<bar>correlation b\<bar> \<longrightarrow>
        deduplicateCorrelations [a, b] = [a])"
proof (intro conjI ballI impI)
  fix r assume "r \<in> set (deduplicateCorrelations cs)"
  from dedup_entries [OF this] obtain i where "keptAt cs i" "cs ! i = r" by blast
  then show "\<exists>i<length cs. cs ! i = r \<and>
        (\<forall>c\<in>set (take i cs). pairKey c = pairKey r \<longrightarrow> outranks r c) \<and>
        (\<forall>c\<in>set cs. pairKey c = pairKey r \<longrightarrow> \<not> outranks c r)"
    by (auto simp: keptAt_def)
next
  assume "pairKey a = pairKey b \<and> dataPoints a = dataPoints b \<and>
      \<bar>correlation a\<bar> = \<bar>correlation b\<bar>"
  then show "deduplicateCorrelations [a, b] = [a]"
    by (simp add: deduplicateCorrelations_def dedupStep_def Let_def)
qed

lemma example_keys:
  "pairKey exampleR12 = ''A|B''" "pairKey exampleR20 = ''A|B''"
  "pairKey exampleR20strong = ''A|B''" "pairKey exampleR20tie = ''A|B''"
  by (simp_all add: pairKey_def exampleR12_def exampleR20_def exampleR20strong_def
      exampleR20tie_def)



text \<open>C9 at two records of equal rank: the first is kept.\<close>

theorem deduplicateCorrelations_first_wins_witness:
  "pairKey exampleR20strong = pairKey exampleR20tie \<and>
   dataPoints exampleR20strong = dataPoints exampleR20tie \<and>
   \<bar>correlation exampleR20strong\<bar> = \<bar>correlation exampleR20tie\<bar> \<and>
   deduplicateCorrelations [exampleR20strong, exampleR20tie] = [exampleR20strong] \<and>
   exampleR20strong \<in> set (deduplicateCorrelations [exampleR20strong, exampleR20tie]) \<and>
   (\<exists>i<length [exampleR20strong, exampleR20tie].
       [exampleR20strong, exampleR20tie] ! i = exampleR20strong)"
proof -
  have t: "dataPoints exampleR20strong = dataPoints exampleR20tie"
    "\<bar>correlation exampleR20strong\<bar> = \<bar>correlation exampleR20tie\<bar>"
    by (simp_all add: exampleR20strong_def exampleR20tie_def)
  have "\<exists>i<length [exampleR20strong, exampleR20tie].
       [exampleR20strong, exampleR20tie] ! i = exampleR20strong"
    by (intro exI [of _ 0]) simp
  then show ?thesis
    using deduplicateCorrelations_first_wins
      [of "[exampleR20strong, exampleR20tie]" exampleR20strong exampleR20tie] t
    by (simp add: example_keys)
qed

section \<open>Properties of the rolling correlation\<close>

lemma js_slice_unfold:
  "js_slice xs (int a) (int b) =
     take (min b (length xs) - min a (length xs)) (drop (min a (length xs)) xs)"
proof -
  have k: "min (int a) (int (length xs)) = int (min a (length xs))"
    and f: "min (int b) (int (length xs)) = int (min b (length xs))"
    by (simp_all add: min_def)
  have d: "nat (int (min b (length xs)) - int (min a (length xs)))
     = min b (length xs) - min a (length xs)"
    by (simp only: nat_diff_distrib' of_nat_0_le_iff nat_int)
  show ?thesis
    unfolding js_slice_def Let_def using k f d by simp
qed

lemma js_slice_nat: "js_slice xs (int a) (int b) = take (b - a) (drop a xs)"
proof (cases "a \<le> length xs")
  case True
  show ?thesis
  proof (cases "b \<le> length xs")
    case b: True
    with True show ?thesis by (simp add: js_slice_unfold min_absorb1)
  next
    case b: False
    with True have "length (drop a xs) \<le> b - a" by simp
    with True b show ?thesis by (simp add: js_slice_unfold min_absorb1 min_absorb2)
  qed
next
  case False
  then show ?thesis by (simp add: js_slice_unfold)
qed


lemma rolling_map:
  "calculateRollingCorrelation x y window =
     map (\<lambda>i. calculateCorrelation (js_slice x (i - window) i) (js_slice y (i - window) i))
       [window..int (length x)]"
  unfolding calculateRollingCorrelation_def by (simp only: fold_push append_Nil)

lemma length_rolling:
  "length (calculateRollingCorrelation x y window) = nat (int (length x) - window + 1)"
  unfolding rolling_map by (simp only: length_map length_upto)

lemma js_slice_at:
  "js_slice zs (int n + int k - int n) (int n + int k) = take n (drop k zs)"
proof -
  have "int n + int k - int n = int k" and "int n + int k = int (n + k)" by simp_all
  then have "js_slice zs (int n + int k - int n) (int n + int k) = js_slice zs (int k) (int (n + k))"
    by (simp only:)
  also have "\<dots> = take (n + k - k) (drop k zs)" by (rule js_slice_nat)
  finally show ?thesis by simp
qed

lemma rolling_nth:
  assumes "k < length (calculateRollingCorrelation x y (int n))"
  shows "calculateRollingCorrelation x y (int n) ! k =
           calculateCorrelation (take n (drop k x)) (take n (drop k y))"
    and "n + k \<le> length x"
proof -
  from assms have k': "k < nat (int (length x) - int n + 1)" by (simp only: length_rolling)
  then show le: "n + k \<le> length x" by linarith
  then have "int n + int k \<le> int (length x)" by linarith
  then have nth: "[int n..int (length x)] ! k = int n + int k" by (rule nth_upto)
  from k' have "k < length [int n..int (length x)]" by (simp only: length_upto)
  then have "calculateRollingCorrelation x y (int n) ! k =
     calculateCorrelation (js_slice x (int n + int k - int n) (int n + int k))
       (js_slice y (int n + int k - int n) (int n + int k))"
    unfolding rolling_map by (simp only: nth_map nth)
  then show "calculateRollingCorrelation x y (int n) ! k =
           calculateCorrelation (take n (drop k x)) (take n (drop k y))"
    by (simp only: js_slice_at)
qed


text \<open>
  C8: \<open>calculateRollingCorrelation\<close> yields \<open>len(x) - w + 1\<close> elements when \<open>len(x) \<ge> w\<close> and
  none otherwise; for a window width \<open>w \<ge> 0\<close> its element \<open>k\<close> is \<open>calculateCorrelation\<close>
  applied to the \<open>w\<close> elements of \<open>x\<close> and of \<open>y\<close> from position \<open>k\<close> on.
\<close>

theorem calculateRollingCorrelation_spec:
  "length (calculateRollingCorrelation x y window) =
     (if window \<le> int (length x) then nat (int (length x) - window + 1) else 0) \<and>
   (0 \<le> window \<longrightarrow>
      (\<forall>k<length (calculateRollingCorrelation x y window).
         calculateRollingCorrelation x y window ! k =
           calculateCorrelation (take (nat window) (drop k x)) (take (nat window) (drop k y)) \<and>
         length (take (nat window) (drop k x)) = nat window \<and>
         (length y = length x \<longrightarrow> length (take (nat window) (drop k y)) = nat window)))"
proof (intro conjI impI allI)
  show "length (calculateRollingCorrelation x y window) =
     (if window \<le> int (length x) then nat (int (length x) - window + 1) else 0)"
    unfolding length_rolling by simp
next
  fix k
  assume w: "0 \<le> window" and k: "k < length (calculateRollingCorrelation x y window)"
  define n where "n = nat window"
  with w have n: "window = int n" by simp
  from k have k': "k < length (calculateRollingCorrelation x y (int n))" by (simp only: n)
  have le: "n + k \<le> length x" by (rule rolling_nth(2) [OF k'])
  have "calculateRollingCorrelation x y (int n) ! k =
           calculateCorrelation (take n (drop k x)) (take n (drop k y))"
    by (rule rolling_nth(1) [OF k'])
  then show "calculateRollingCorrelation x y window ! k =
           calculateCorrelation (take (nat window) (drop k x)) (take (nat window) (drop k y))"
    by (simp only: n nat_int)
  from le show "length (take (nat window) (drop k x)) = nat window"
    unfolding n nat_int by simp
  assume "length y = length x"
  with le show "length (take (nat window) (drop k y)) = nat window"
    unfolding n nat_int by simp
qed

text \<open>C8 at \<open>x = [1, 2, 3]\<close>, \<open>y = [2, 4, 7]\<close> and the widths 2 and 5.\<close>

theorem calculateRollingCorrelation_spec_witness:
  "(0::int) \<le> 2 \<and> (1::nat) < length (calculateRollingCorrelation [1, 2, 3] [2, 4, 7] 2) \<and>
   length [2, 4, 7 :: real] = length [1, 2, 3 :: real] \<and>
   length (calculateRollingCorrelation [1, 2, 3] [2, 4, 7] 2) = 2 \<and>
   calculateRollingCorrelation [1, 2, 3] [2, 4, 7] 2 ! 1 = calculateCorrelation [2, 3] [4, 7] \<and>
   length (calculateRollingCorrelation [1, 2, 3] [2, 4, 7] 5) = 0"
proof -
  note s = calculateRollingCorrelation_spec [of "[1, 2, 3]" "[2, 4, 7]" 2]
  from s have len: "length (calculateRollingCorrelation [1, 2, 3] [2, 4, 7] 2) = 2"
    by simp
  from s have "\<forall>k<length (calculateRollingCorrelation [1, 2, 3] [2, 4, 7] 2).
      calculateRollingCorrelation [1, 2, 3] [2, 4, 7] 2 ! k =
        calculateCorrelation (take (nat 2) (drop k [1, 2, 3])) (take (nat 2) (drop k [2, 4, 7]))"
    by simp
  then have "1 < length (calculateRollingCorrelation [1, 2, 3] [2, 4, 7] 2) \<longrightarrow>
      calculateRollingCorrelation [1, 2, 3] [2, 4, 7] 2 ! 1 =
        calculateCorrelation (take (nat 2) (drop 1 [1, 2, 3])) (take (nat 2) (drop 1 [2, 4, 7]))"
    by blast
  with len have el: "calculateRollingCorrelation [1, 2, 3] [2, 4, 7] 2 ! 1 =
      calculateCorrelation [2, 3] [4, 7]"
    by (simp add: numeral_2_eq_2)
  have "length (calculateRollingCorrelation [1, 2, 3] [2, 4, 7] 5) = 0"
    using calculateRollingCorrelation_spec [of "[1, 2, 3]" "[2, 4, 7]" 5] by simp
  with len el show ?thesis by simp
qed

section \<open>Properties of the windowed run\<close>

lemma js_slice_0: "js_slice xs 0 (int b) = take b xs"
  using js_slice_nat [of xs 0 b] by simp

lemma analyzeWindow_total:
  "analyzeWindow (\<lambda>w. Inr (f w)) w st =
     Inr (st\<lparr>allCorrelations := allCorrelations st @ f w, engineCalls := engineCalls st @ [w]\<rparr>)"
  by (simp add: analyzeWindow_def)

lemma windowed_small:
  assumes "2 \<le> length ms" and "length ms < WINDOW_SIZE"
  shows "windowedAnalysis (\<lambda>w. Inr (f w)) ms =
     Inr (Some \<lparr>allCorrelations = f ms, windowCount = 1, engineCalls = [ms]\<rparr>)"
  unfolding windowedAnalysis_def Let_def js_slice_0 js_slice_nat analyzeWindow_total
  using assms by simp

lemma windowed_exact:
  assumes "length ms = WINDOW_SIZE"
  shows "windowedAnalysis (\<lambda>w. Inr (f w)) ms =
     Inr (Some \<lparr>allCorrelations = f ms, windowCount = 1, engineCalls = [ms]\<rparr>)"
  unfolding windowedAnalysis_def Let_def js_slice_0 js_slice_nat analyzeWindow_total
  using assms by (simp add: WINDOW_SIZE_def)

lemma windowed_one_over:
  assumes "length ms = WINDOW_SIZE + 1"
  shows "windowedAnalysis (\<lambda>w. Inr (f w)) ms =
     Inr (Some \<lparr>allCorrelations = f (take WINDOW_SIZE ms), windowCount = 2,
                 engineCalls = [take WINDOW_SIZE ms]\<rparr>)"
  unfolding windowedAnalysis_def Let_def js_slice_0 js_slice_nat analyzeWindow_total
  using assms by (simp add: WINDOW_SIZE_def)

lemma windowed_two:
  assumes "WINDOW_SIZE + 2 \<le> length ms"
  shows "windowedAnalysis (\<lambda>w. Inr (f w)) ms =
     Inr (Some \<lparr>allCorrelations = f (take WINDOW_SIZE ms) @
                   f (take WINDOW_SIZE (drop WINDOW_SIZE ms)),
                 windowCount = 2,
                 engineCalls = [take WINDOW_SIZE ms, take WINDOW_SIZE (drop WINDOW_SIZE ms)]\<rparr>)"
proof -
  have sl: "take (min (WINDOW_SIZE * 2) (length ms) - WINDOW_SIZE) (drop WINDOW_SIZE ms)
      = take WINDOW_SIZE (drop WINDOW_SIZE ms)"
    by (cases "WINDOW_SIZE * 2 \<le> length ms") (simp_all add: min_def)
  have "2 \<le> length (take WINDOW_SIZE (drop WINDOW_SIZE ms))"
    using assms by (simp add: WINDOW_SIZE_def)
  then show ?thesis
    unfolding windowedAnalysis_def Let_def js_slice_0 js_slice_nat analyzeWindow_total sl
    using assms by (simp add: WINDOW_SIZE_def)
qed

text \<open>
  C5, as stated: a run over 120 entities would analyze three windows of sizes 50, 50 and
  20. \<open>main\<close> has code for two windows only: on 120 entities the engine is called on the
  entities 0 to 49 and 50 to 99, and the last 20 are in no window.
\<close>

theorem windowedAnalysis_counterexample:
  "windowedAnalysis Inr [0..<120] =
     Inr (Some \<lparr>allCorrelations = [0..<50] @ [50..<100], windowCount = 2,
                 engineCalls = [[0..<50], [50..<100]]\<rparr>)"
  using windowed_two [of "[0..<120]" "\<lambda>w. w"]
  by (simp add: WINDOW_SIZE_def)

text \<open>
  C5, amended: for a list of 2 to \<open>MAX_MARKETS\<close> entities (\<open>main\<close> collects no more and returns
  before the analysis with fewer) and an engine that returns, the run calls the engine on
  the whole list when it has at most \<open>WINDOW_SIZE\<close> entities, and otherwise on the first
  \<open>WINDOW_SIZE\<close> entities and then on the rest, except that a rest of a single entity is not
  analyzed; the records are those of the calls, concatenated in this order; every window
  has at most \<open>WINDOW_SIZE\<close> entities, and unless the list has \<open>WINDOW_SIZE + 1\<close> entities the
  windows partition it.
\<close>

theorem windowedAnalysis_spec:
  "2 \<le> length ms \<and> length ms \<le> MAX_MARKETS \<longrightarrow>
     (\<exists>st. windowedAnalysis (\<lambda>w. Inr (f w)) ms = Inr (Some st) \<and>
        engineCalls st =
          (if length ms \<le> WINDOW_SIZE then [ms]
           else if length ms = WINDOW_SIZE + 1 then [take WINDOW_SIZE ms]
           else [take WINDOW_SIZE ms, drop WINDOW_SIZE ms]) \<and>
        allCorrelations st = concat (map f (engineCalls st)) \<and>
        (\<forall>w\<in>set (engineCalls st). length w \<le> WINDOW_SIZE) \<and>
        (length ms \<noteq> WINDOW_SIZE + 1 \<longrightarrow> concat (engineCalls st) = ms))"
proof
  assume a: "2 \<le> length ms \<and> length ms \<le> MAX_MARKETS"
  consider "length ms < WINDOW_SIZE" | "length ms = WINDOW_SIZE"
    | "length ms = WINDOW_SIZE + 1" | "WINDOW_SIZE + 2 \<le> length ms"
    by linarith
  then show "\<exists>st. windowedAnalysis (\<lambda>w. Inr (f w)) ms = Inr (Some st) \<and>
        engineCalls st =
          (if length ms \<le> WINDOW_SIZE then [ms]
           else if length ms = WINDOW_SIZE + 1 then [take WINDOW_SIZE ms]
           else [take WINDOW_SIZE ms, drop WINDOW_SIZE ms]) \<and>
        allCorrelations st = concat (map f (engineCalls st)) \<and>
        (\<forall>w\<in>set (engineCalls st). length w \<le> WINDOW_SIZE) \<and>
        (length ms \<noteq> WINDOW_SIZE + 1 \<longrightarrow> concat (engineCalls st) = ms)"
  proof cases
    case 1
    with a show ?thesis by (simp add: windowed_small)
  next
    case 2
    then show ?thesis by (simp add: windowed_exact)
  next
    case 3
    then show ?thesis by (simp add: windowed_one_over)
  next
    case 4
    with a have "take WINDOW_SIZE (drop WINDOW_SIZE ms) = drop WINDOW_SIZE ms"
      by (simp add: WINDOW_SIZE_def MAX_MARKETS_def)
    with 4 a show ?thesis
      by (simp add: windowed_two WINDOW_SIZE_def MAX_MARKETS_def)
  qed
qed

text \<open>C5, amended, at 60 entities: the windows are the entities 0 to 49 and 50 to 59.\<close>

theorem windowedAnalysis_spec_witness:
  "2 \<le> length [0..<60] \<and> length [0..<60] \<le> MAX_MARKETS \<and>
   length [0..<60] \<noteq> WINDOW_SIZE + 1 \<and>
   (\<exists>st. windowedAnalysis (\<lambda>w. Inr (map Suc w)) [0..<60] = Inr (Some st) \<and>
      engineCalls st = [[0..<50], [50..<60]] \<and>
      allCorrelations st = map Suc [0..<50] @ map Suc [50..<60] \<and>
      concat (engineCalls st) = [0..<60])"
  using windowedAnalysis_spec [of "[0..<60]" "map Suc"]
  by (auto simp add: WINDOW_SIZE_def MAX_MARKETS_def)

section \<open>Properties of the fetch loop\<close>

lemma fetch_never_throws:
  "\<exists>r. fetchMarketTimeSeries kalshi ev mk t s e p et = Inr r"
  by (simp add: fetchMarketTimeSeries_def split: sum.splits option.splits prod.splits)

lemma fetch_catches:
  "kalshi ev mk s e p = Inl err \<Longrightarrow> fetchMarketTimeSeries kalshi ev mk t s e p et = Inr None"
  by (simp add: fetchMarketTimeSeries_def)

lemma fetch_fetched:
  "fetchMarketTimeSeries kalshi (inEventTicker m) (inMarketTicker m) (inTitle m) s e p
     (inEventTitle m) = Inr (fetched kalshi s e p m)"
  using fetch_never_throws [of kalshi "inEventTicker m" "inMarketTicker m" "inTitle m" s e p
      "inEventTitle m"]
  by (auto simp: fetched_def)

lemma fetchLoop_fetched:
  "fetchLoop kalshi ms s e p acc = Inr (acc @ List.map_filter (fetched kalshi s e p) ms)"
proof (induction ms arbitrary: acc)
  case Nil
  show ?case by (simp add: List.map_filter_simps)
next
  case (Cons m ms)
  show ?case
    by (cases "fetched kalshi s e p m")
       (simp_all add: fetch_fetched Cons.IH List.map_filter_simps)
qed

lemma analyzeMultipleMarkets_fetched:
  "analyzeMultipleMarkets kalshi ms s e p =
     Inr (correlations (pairLoop (List.map_filter (fetched kalshi s e p) ms)))"
  by (simp add: analyzeMultipleMarkets_def fetchLoop_fetched)

text \<open>
  C7: \<open>analyzeMultipleMarkets\<close> always returns: its result is the pair loop on the series
  of the markets whose fetch gave a series. When the collaborator throws for a market, the
  fetch of that market gives \<open>null\<close>, and the batch call returns what it returns on the
  list without that market: the pairs of that market are absent, the other pairs are
  analyzed as they are without it.
\<close>

theorem fetch_failure_skips_entity:
  "(\<exists>cs. analyzeMultipleMarkets kalshi markets startTs endTs p = Inr cs) \<and>
   analyzeMultipleMarkets kalshi markets startTs endTs p =
     Inr (correlations (pairLoop (List.map_filter (fetched kalshi startTs endTs p) markets))) \<and>
   (kalshi (inEventTicker m) (inMarketTicker m) startTs endTs p = Inl err \<longrightarrow>
      fetched kalshi startTs endTs p m = None \<and>
      analyzeMultipleMarkets kalshi (ms1 @ m # ms2) startTs endTs p =
        analyzeMultipleMarkets kalshi (ms1 @ ms2) startTs endTs p)"
proof (intro conjI impI)
  show "\<exists>cs. analyzeMultipleMarkets kalshi markets startTs endTs p = Inr cs"
    by (simp add: analyzeMultipleMarkets_fetched)
  show "analyzeMultipleMarkets kalshi markets startTs endTs p =
     Inr (correlations (pairLoop (List.map_filter (fetched kalshi startTs endTs p) markets)))"
    by (rule analyzeMultipleMarkets_fetched)
next
  assume "kalshi (inEventTicker m) (inMarketTicker m) startTs endTs p = Inl err"
  then show none: "fetched kalshi startTs endTs p m = None"
    by (simp add: fetched_def fetch_catches)
  then show "analyzeMultipleMarkets kalshi (ms1 @ m # ms2) startTs endTs p =
        analyzeMultipleMarkets kalshi (ms1 @ ms2) startTs endTs p"
    by (simp add: analyzeMultipleMarkets_fetched map_filter_append List.map_filter_simps)
qed

lemma fetched_M1: "fetched exampleKalshi 0 100 ''60'' exampleM1 = Some exampleE1"
  by (simp add: fetched_def fetchMarketTimeSeries_def exampleKalshi_def exampleM1_def
      exampleCandles_def transformCandlestickData_def transformCandle_def pushCandle_def
      exampleE1_def)

lemma fetched_M3: "fetched exampleKalshi 0 100 ''60'' exampleM3 = Some exampleE3"
  by (simp add: fetched_def fetchMarketTimeSeries_def exampleKalshi_def exampleM3_def
      exampleCandles_def transformCandlestickData_def transformCandle_def pushCandle_def
      exampleE3_def)

lemma pairLoop_two:
  "correlations (pairLoop [s1, s2]) = (case emitted s1 s2 of None \<Rightarrow> [] | Some r \<Rightarrow> [r])"
proof -
  have "[0..<length [s1, s2]] = [0, 1]" and "[0 + 1..<length [s1, s2]] = [1]"
    and "[1 + 1..<length [s1, s2]] = []"
    by (simp_all add: upt_rec)
  then show ?thesis
    unfolding pairLoop_def by (simp add: pairBody_correlations)
qed

text \<open>
  C7 at the markets \<open>E1\<close>, \<open>E9\<close>, \<open>E3\<close>, where the collaborator throws for \<open>E9\<close>: the
  call returns the record of the pair \<open>(E1, E3)\<close>.
\<close>

theorem fetch_failure_skips_entity_witness:
  "exampleKalshi (inEventTicker exampleMBad) (inMarketTicker exampleMBad) 0 100 ''60''
     = Inl (TransportFailure ''timeout'') \<and>
   analyzeMultipleMarkets exampleKalshi ([exampleM1] @ exampleMBad # [exampleM3]) 0 100 ''60''
     = Inr [pairRecord exampleE1 exampleE3 exampleAligned13] \<and>
   analyzeMultipleMarkets exampleKalshi ([exampleM1] @ [exampleM3]) 0 100 ''60''
     = Inr [pairRecord exampleE1 exampleE3 exampleAligned13]"
proof -
  have bad: "exampleKalshi (inEventTicker exampleMBad) (inMarketTicker exampleMBad) 0 100 ''60''
     = Inl (TransportFailure ''timeout'')"
    by (simp add: exampleKalshi_def exampleMBad_def)
  have e13: "emitted exampleE1 exampleE3 = Some (pairRecord exampleE1 exampleE3 exampleAligned13)"
    using returns_ne by (simp add: emitted_def align_E1_E3)
      (simp add: exampleE1_def exampleE3_def exampleAligned13_def)
  note spec = fetch_failure_skips_entity
    [of exampleKalshi "[exampleM1] @ [exampleM3]" 0 100 "''60''" exampleMBad
        "TransportFailure ''timeout''" "[exampleM1]" "[exampleM3]"]
  from spec have "analyzeMultipleMarkets exampleKalshi ([exampleM1] @ [exampleM3]) 0 100 ''60''
     = Inr [pairRecord exampleE1 exampleE3 exampleAligned13]"
    by (simp add: List.map_filter_simps fetched_M1 fetched_M3 pairLoop_two e13)
  moreover from spec bad
  have "analyzeMultipleMarkets exampleKalshi ([exampleM1] @ exampleMBad # [exampleM3]) 0 100 ''60''
     = analyzeMultipleMarkets exampleKalshi ([exampleM1] @ [exampleM3]) 0 100 ''60''"
    by blast
  ultimately show ?thesis using bad by simp
qed

end
